theory Spec2Isabelle
  imports Main "HOL-Library.AList"
begin

section \<open>Python values\<close>

text \<open>
  The request body is decoded JSON, so the value under a key of the field mapping can be
  any JSON value, not only a string. \<open>PNone\<close> is Python's \<open>None\<close> (JSON \<open>null\<close>).
  JSON numbers with a fraction decode to floats; the code treats them like every other
  value that is neither \<open>None\<close> nor a string, and they are left out of the model.
  A \<open>string\<close> stands for a Python \<open>str\<close> whose code points are below 256; among
  those the decimal digits (the regular expression class \<open>\d\<close>) are exactly
  \<open>0\<close> to \<open>9\<close>.
\<close>

datatype pyval =
    PNone
  | PBool bool
  | PInt int
  | PStr string
  | PList "pyval list"
  | PDict "(string \<times> pyval) list"

text \<open>The exceptions that the modelled code can raise.\<close>

datatype exn = TypeError | ValueError | AttributeError

text \<open>
  A \<open>dict\<close> with string keys, as decoded from a JSON object: an association list, read
  through \<open>map_of\<close>. \<open>key in data\<close> is \<open>map_of data key \<noteq> None\<close>,
  \<open>data[key]\<close> on a present key is the value found, \<open>not data\<close> is \<open>data = []\<close>.
\<close>

type_synonym pydict = "(string \<times> pyval) list"

text \<open>\<open>key in d\<close>, for the request's dict and for the dict of tasks.\<close>

definition contains_key :: "('k \<times> 'v) list \<Rightarrow> 'k \<Rightarrow> bool" where
  "contains_key d key = (map_of d key \<noteq> None)"

text \<open>\<open>data.get(key, default)\<close>; \<open>data.get(key)\<close> has the default \<open>None\<close>.\<close>

definition dict_get :: "pydict \<Rightarrow> string \<Rightarrow> pyval \<Rightarrow> pyval" where
  "dict_get data key dflt = (case map_of data key of None \<Rightarrow> dflt | Some v \<Rightarrow> v)"

text \<open>\<open>sep.join(xs)\<close> on a list of strings.\<close>

fun join :: "string \<Rightarrow> string list \<Rightarrow> string" where
  "join sep [] = []"
| "join sep [x] = x"
| "join sep (x # y # ys) = x @ sep @ join sep (y # ys)"

section \<open>\<open>datetime.strptime\<close> with the format \<open>%Y-%m-%d\<close>\<close>

text \<open>
  The standard library turns the format into the regular expression
  \<^verbatim>\<open>(?P<Y>\d\d\d\d)-(?P<m>1[0-2]|0[1-9]|[1-9])-(?P<d>3[0-1]|[1-2]\d|0[1-9]|[1-9]| [1-9])\<close>
  and matches it at the start of the input (\<open>re.match\<close>: backtracking, alternatives
  tried from left to right, no anchor at the end). No match raises \<open>ValueError\<close>; a match
  that stops before the end of the input raises \<open>ValueError\<close> ("unconverted data
  remains"); then the three groups are converted with \<open>int\<close> and the date is built,
  which raises \<open>ValueError\<close> when the year is 0 or the day does not exist in the month.
  An input that is not a \<open>str\<close> raises \<open>TypeError\<close>.

  A matcher returns every way to match a prefix of the input, in the order in which
  backtracking tries them, each with the text matched and the rest of the input.
\<close>

type_synonym matcher = "string \<Rightarrow> (string \<times> string) list"

definition is_digit :: "char \<Rightarrow> bool" where
  "is_digit c = (c \<in> set ''0123456789'')"

fun rx_class :: "(char \<Rightarrow> bool) \<Rightarrow> matcher" where
  "rx_class p [] = []"
| "rx_class p (c # cs) = (if p c then [([c], cs)] else [])"

definition rx_seq :: "matcher \<Rightarrow> matcher \<Rightarrow> matcher" where
  "rx_seq p q s = concat (map (\<lambda>(a, r). map (\<lambda>(b, r'). (a @ b, r')) (q r)) (p s))"

definition rx_alt :: "matcher \<Rightarrow> matcher \<Rightarrow> matcher" where
  "rx_alt p q s = p s @ q s"

definition rx_lit :: "char \<Rightarrow> matcher" where
  "rx_lit c = rx_class (\<lambda>x. x = c)"

definition rx_in :: "string \<Rightarrow> matcher" where
  "rx_in cs = rx_class (\<lambda>x. x \<in> set cs)"

definition rx_d :: matcher where
  "rx_d = rx_class is_digit"

definition rx_Y :: matcher where
  "rx_Y = rx_seq rx_d (rx_seq rx_d (rx_seq rx_d rx_d))"

definition rx_m :: matcher where
  "rx_m = rx_alt (rx_seq (rx_lit CHR ''1'') (rx_in ''012''))
         (rx_alt (rx_seq (rx_lit CHR ''0'') (rx_in ''123456789''))
                 (rx_in ''123456789''))"

definition rx_day :: matcher where
  "rx_day = rx_alt (rx_seq (rx_lit CHR ''3'') (rx_in ''01''))
           (rx_alt (rx_seq (rx_in ''12'') rx_d)
           (rx_alt (rx_seq (rx_lit CHR ''0'') (rx_in ''123456789''))
           (rx_alt (rx_in ''123456789'')
                   (rx_seq (rx_lit CHR '' '') (rx_in ''123456789'')))))"

text \<open>
  All matches of the whole expression, in backtracking order, with the three groups and
  the unmatched rest; \<open>re.match\<close> returns the first.
\<close>

definition date_regex :: "string \<Rightarrow> ((string \<times> string \<times> string) \<times> string) list" where
  "date_regex s =
     concat (map (\<lambda>(y, r0).
       concat (map (\<lambda>(_, r1).
         concat (map (\<lambda>(m, r2).
           concat (map (\<lambda>(_, r3).
             map (\<lambda>(d, r4). ((y, m, d), r4)) (rx_day r3))
           (rx_lit CHR ''-'' r2)))
         (rx_m r1)))
       (rx_lit CHR ''-'' r0)))
     (rx_Y s))"

text \<open>\<open>int(s)\<close> on a group of the match: decimal digits, after an optional blank.\<close>

definition digit_val :: "char \<Rightarrow> int" where
  "digit_val c = int (of_char c) - 48"

definition py_int :: "string \<Rightarrow> int" where
  "py_int s = foldl (\<lambda>n c. 10 * n + digit_val c) 0 (dropWhile (\<lambda>c. c = CHR '' '') s)"

definition is_leap :: "int \<Rightarrow> bool" where
  "is_leap y = (y mod 4 = 0 \<and> (y mod 100 \<noteq> 0 \<or> y mod 400 = 0))"

definition days_in_month :: "int \<Rightarrow> int \<Rightarrow> int" where
  "days_in_month y m =
     (if m = 2 then (if is_leap y then 29 else 28)
      else if m \<in> {4, 6, 9, 11} then 30 else 31)"

text \<open>The checks of the \<open>date\<close> constructor (\<open>MINYEAR = 1\<close>, \<open>MAXYEAR = 9999\<close>).\<close>

definition check_date_fields :: "int \<Rightarrow> int \<Rightarrow> int \<Rightarrow> bool" where
  "check_date_fields y m d =
     (1 \<le> y \<and> y \<le> 9999 \<and> 1 \<le> m \<and> m \<le> 12 \<and> 1 \<le> d \<and> d \<le> days_in_month y m)"

definition strptime :: "pyval \<Rightarrow> exn + (int \<times> int \<times> int)" where
  "strptime v =
     (case v of
        PStr s \<Rightarrow>
          (case date_regex s of
             [] \<Rightarrow> Inl ValueError
           | ((y, m, d), rest) # _ \<Rightarrow>
               if rest \<noteq> [] then Inl ValueError
               else if check_date_fields (py_int y) (py_int m) (py_int d)
                    then Inr (py_int y, py_int m, py_int d)
                    else Inl ValueError)
      | _ \<Rightarrow> Inl TypeError)"

section \<open>Validators (\<open>utils/validators.py\<close>)\<close>

text \<open>
  Every validator returns a pair \<open>(is_valid, error_message)\<close>. \<open>validate_date\<close> catches
  \<open>ValueError\<close> only, so a \<open>TypeError\<close> of \<open>strptime\<close> leaves it, and the two
  validators that call it, as an exception: their results are sums, \<open>Inl\<close> the exception.
\<close>

type_synonym verdict = "bool \<times> string option"

definition validate_date :: "pyval \<Rightarrow> exn + verdict" where
  "validate_date date_string =
     (case strptime date_string of
        Inr _ \<Rightarrow> Inr (True, None)
      | Inl ValueError \<Rightarrow> Inr (False, Some ''Invalid date format. Use YYYY-MM-DD'')
      | Inl e \<Rightarrow> Inl e)"

definition valid_statuses :: "string list" where
  "valid_statuses = [''Pending'', ''In Progress'', ''Completed'']"

definition validate_status :: "pyval \<Rightarrow> verdict" where
  "validate_status st =
     (if st \<notin> set (map PStr valid_statuses)
      then (False, Some (''Invalid status. Must be one of: '' @ join '', '' valid_statuses))
      else (True, None))"

definition validate_task_data :: "pydict \<Rightarrow> string list \<Rightarrow> verdict" where
  "validate_task_data data required_fields =
     (let missing_fields = filter (\<lambda>field. \<not> contains_key data field) required_fields
      in if missing_fields \<noteq> []
         then (False, Some (''Missing required fields: '' @ join '', '' missing_fields))
         else (True, None))"

text \<open>
  \<open>data["due_date"]\<close> and \<open>data["status"]\<close> are read only where the key is known to be
  present, so the default of \<open>dict_get\<close> is never returned there.
\<close>

definition validate_create_task :: "pydict \<Rightarrow> exn + verdict" where
  "validate_create_task data =
     (case validate_task_data data [''title'', ''description'', ''due_date''] of
        (False, error) \<Rightarrow> Inr (False, error)
      | (True, _) \<Rightarrow>
          (case validate_date (dict_get data ''due_date'' PNone) of
             Inl e \<Rightarrow> Inl e
           | Inr (False, error) \<Rightarrow> Inr (False, error)
           | Inr (True, _) \<Rightarrow>
               if contains_key data ''status'' then
                 (case validate_status (dict_get data ''status'' PNone) of
                    (False, error) \<Rightarrow> Inr (False, error)
                  | (True, _) \<Rightarrow> Inr (True, None))
               else Inr (True, None)))"

definition validate_update_task :: "pydict \<Rightarrow> exn + verdict" where
  "validate_update_task data =
     (if data = [] then Inr (False, Some ''No fields provided for update'')
      else
        (case (if contains_key data ''due_date''
               then validate_date (dict_get data ''due_date'' PNone)
               else Inr (True, None)) of
           Inl e \<Rightarrow> Inl e
         | Inr (False, error) \<Rightarrow> Inr (False, error)
         | Inr (True, _) \<Rightarrow>
             if contains_key data ''status'' then
               (case validate_status (dict_get data ''status'' PNone) of
                  (False, error) \<Rightarrow> Inr (False, error)
                | (True, _) \<Rightarrow> Inr (True, None))
             else Inr (True, None)))"

text \<open>
  The date format as the specification words it, to compare \<open>validate_date\<close> with: a
  four digit year, a two digit month and a two digit day, all decimal digits, separated
  by \<open>-\<close>, that form a date of the calendar (of the years 1 to 9999, the dates that
  Python has).
\<close>

definition spec_date_format :: "string \<Rightarrow> bool" where
  "spec_date_format s =
     (length s = 10 \<and>
      list_all is_digit (take 4 s) \<and> s ! 4 = CHR ''-'' \<and>
      list_all is_digit (take 2 (drop 5 s)) \<and> s ! 7 = CHR ''-'' \<and>
      list_all is_digit (drop 8 s) \<and>
      check_date_fields (py_int (take 4 s)) (py_int (take 2 (drop 5 s))) (py_int (drop 8 s)))"

section \<open>Tasks and their storage (\<open>models/task_model.py\<close>)\<close>

text \<open>
  A \<open>Task\<close> is a mutable object. The fields other than \<open>id\<close> hold whatever the caller
  passed: the routes pass values of the decoded request body.
\<close>

record Task =
  id' :: int
  title :: pyval
  description :: pyval
  due_date :: pyval
  status :: pyval

text \<open>
  \<open>Task.__init__\<close>. The parameter \<open>status\<close> has the default \<open>"Pending"\<close>: \<open>None\<close>
  stands for a call that leaves it out.
\<close>

definition Task_init :: "int \<Rightarrow> pyval \<Rightarrow> pyval \<Rightarrow> pyval \<Rightarrow> pyval option \<Rightarrow> Task" where
  "Task_init task_id t d dd st =
     \<lparr>id' = task_id, title = t, description = d, due_date = dd,
      status = (case st of None \<Rightarrow> PStr ''Pending'' | Some v \<Rightarrow> v)\<rparr>"

definition to_dict :: "Task \<Rightarrow> pydict" where
  "to_dict self =
     [(''id'', PInt (id' self)), (''title'', title self),
      (''description'', description self), (''due_date'', due_date self),
      (''status'', status self)]"

text \<open>
  \<open>Task.update\<close>: the new content of the object. Each parameter has the default
  \<open>None\<close>, and the body tests \<open>is not None\<close>: a parameter left out and a parameter
  passed as \<open>None\<close> are the same call, so the model passes \<open>PNone\<close> for both.
\<close>

definition Task_update :: "Task \<Rightarrow> pyval \<Rightarrow> pyval \<Rightarrow> pyval \<Rightarrow> pyval \<Rightarrow> Task" where
  "Task_update self t d dd st =
     (let self1 = (if t \<noteq> PNone then self\<lparr>title := t\<rparr> else self);
          self2 = (if d \<noteq> PNone then self1\<lparr>description := d\<rparr> else self1);
          self3 = (if dd \<noteq> PNone then self2\<lparr>due_date := dd\<rparr> else self2)
      in if st \<noteq> PNone then self3\<lparr>status := st\<rparr> else self3)"

text \<open>
  Task objects are shared between the storage and its callers and are mutated in place,
  so the model keeps them in a heap: \<open>heap\<close> lists every Task object constructed so far,
  and a reference is the position of the object in it. A new object gets the next
  position; objects are never removed from the heap. The dict \<open>tasks\<close> maps an id to a
  reference, in insertion order (an association list: \<open>AList.update\<close> overwrites in place
  or appends, as a Python dict does).
\<close>

type_synonym ref = nat

record TaskStorage =
  heap :: "Task list"
  tasks :: "(int \<times> ref) list"
  next_id :: int

definition TaskStorage_init :: TaskStorage where
  "TaskStorage_init = \<lparr>heap = [], tasks = [], next_id = 1\<rparr>"

definition create_task ::
  "TaskStorage \<Rightarrow> pyval \<Rightarrow> pyval \<Rightarrow> pyval \<Rightarrow> pyval option \<Rightarrow> ref \<times> TaskStorage" where
  "create_task self t d dd st =
     (let task = Task_init (next_id self) t d dd
                   (Some (case st of None \<Rightarrow> PStr ''Pending'' | Some v \<Rightarrow> v));
          r = length (heap self)
      in (r, self\<lparr>heap := heap self @ [task],
                  tasks := AList.update (next_id self) r (tasks self),
                  next_id := next_id self + 1\<rparr>))"

definition get_task :: "TaskStorage \<Rightarrow> int \<Rightarrow> ref option" where
  "get_task self task_id = map_of (tasks self) task_id"

definition get_all_tasks :: "TaskStorage \<Rightarrow> ref list" where
  "get_all_tasks self = map snd (tasks self)"

text \<open>A Task object is always truthy, so \<open>if task\<close> tests for \<open>None\<close>.\<close>

definition update_task ::
  "TaskStorage \<Rightarrow> int \<Rightarrow> pyval \<Rightarrow> pyval \<Rightarrow> pyval \<Rightarrow> pyval \<Rightarrow> ref option \<times> TaskStorage" where
  "update_task self task_id t d dd st =
     (case get_task self task_id of
        None \<Rightarrow> (None, self)
      | Some r \<Rightarrow>
          (Some r, self\<lparr>heap := (heap self)[r := Task_update (heap self ! r) t d dd st]\<rparr>))"

definition delete_task :: "TaskStorage \<Rightarrow> int \<Rightarrow> bool \<times> TaskStorage" where
  "delete_task self task_id =
     (if contains_key (tasks self) task_id
      then (True, self\<lparr>tasks := AList.delete task_id (tasks self)\<rparr>)
      else (False, self))"

subsection \<open>Sequences of operations\<close>

datatype op =
    Create pyval pyval pyval "pyval option"
  | Get int
  | ListAll
  | Update int pyval pyval pyval pyval
  | Delete int

datatype result =
    Created ref
  | Found "ref option"
  | Listed "ref list"
  | Updated "ref option"
  | Deleted bool

fun exec :: "TaskStorage \<Rightarrow> op \<Rightarrow> result \<times> TaskStorage" where
  "exec s (Create t d dd st) = (case create_task s t d dd st of (r, s') \<Rightarrow> (Created r, s'))"
| "exec s (Get k) = (Found (get_task s k), s)"
| "exec s ListAll = (Listed (get_all_tasks s), s)"
| "exec s (Update k t d dd st) =
     (case update_task s k t d dd st of (r, s') \<Rightarrow> (Updated r, s'))"
| "exec s (Delete k) = (case delete_task s k of (b, s') \<Rightarrow> (Deleted b, s'))"

fun run :: "TaskStorage \<Rightarrow> op list \<Rightarrow> TaskStorage" where
  "run s [] = s"
| "run s (x # xs) = run (snd (exec s x)) xs"

text \<open>The ids of the tasks that the creates of a sequence return, in order.\<close>

fun created_ids :: "TaskStorage \<Rightarrow> op list \<Rightarrow> int list" where
  "created_ids s [] = []"
| "created_ids s (x # xs) =
     (case exec s x of
        (Created r, s') \<Rightarrow> id' (heap s' ! r) # created_ids s' xs
      | (_, s') \<Rightarrow> created_ids s' xs)"

subsection \<open>The invariant of the storage\<close>

text \<open>
  The ids of all Task objects constructed so far are below \<open>next_id\<close> and pairwise
  different; every entry of \<open>tasks\<close> refers to an object of the heap that carries the
  entry's key as its id; no key occurs twice.
\<close>

definition heap_ids :: "TaskStorage \<Rightarrow> int list" where
  "heap_ids s = map id' (heap s)"

definition storage_inv :: "TaskStorage \<Rightarrow> bool" where
  "storage_inv s =
     ((\<forall>i \<in> set (heap_ids s). i < next_id s) \<and> distinct (heap_ids s) \<and>
      (\<forall>(k, r) \<in> set (tasks s). r < length (heap s) \<and> id' (heap s ! r) = k) \<and>
      distinct (map fst (tasks s)))"

section \<open>Routes (\<open>routes/task_routes.py\<close>)\<close>

text \<open>
  The handlers work on the module's one storage and on the decoded body of the request,
  here a JSON object. A response is the JSON value given to \<open>jsonify\<close> and the status
  code; an exception caught by the handler gives status 500 with the text of the
  exception, which the model keeps as the exception itself.
\<close>

datatype response = Json pyval nat | Internal exn

definition error_body :: "string option \<Rightarrow> pyval" where
  "error_body error = PDict [(''error'', (case error of None \<Rightarrow> PNone | Some m \<Rightarrow> PStr m))]"

definition route_create_task :: "TaskStorage \<Rightarrow> pydict \<Rightarrow> response \<times> TaskStorage" where
  "route_create_task task_storage data =
     (if data = [] then (Json (error_body (Some ''No data provided'')) 400, task_storage)
      else
        (case validate_create_task data of
           Inl e \<Rightarrow> (Internal e, task_storage)
         | Inr (False, error) \<Rightarrow> (Json (error_body error) 400, task_storage)
         | Inr (True, _) \<Rightarrow>
             (case create_task task_storage
                     (dict_get data ''title'' PNone)
                     (dict_get data ''description'' PNone)
                     (dict_get data ''due_date'' PNone)
                     (Some (dict_get data ''status'' (PStr ''Pending''))) of
                (r, s') \<Rightarrow> (Json (PDict (to_dict (heap s' ! r))) 201, s'))))"

definition route_update_task ::
  "TaskStorage \<Rightarrow> int \<Rightarrow> pydict \<Rightarrow> response \<times> TaskStorage" where
  "route_update_task task_storage task_id data =
     (if data = [] then (Json (error_body (Some ''No data provided'')) 400, task_storage)
      else
        (case get_task task_storage task_id of
           None \<Rightarrow> (Json (error_body (Some ''Task not found'')) 404, task_storage)
         | Some _ \<Rightarrow>
             (case validate_update_task data of
                Inl e \<Rightarrow> (Internal e, task_storage)
              | Inr (False, error) \<Rightarrow> (Json (error_body error) 400, task_storage)
              | Inr (True, _) \<Rightarrow>
                  (case update_task task_storage task_id
                          (dict_get data ''title'' PNone)
                          (dict_get data ''description'' PNone)
                          (dict_get data ''due_date'' PNone)
                          (dict_get data ''status'' PNone) of
                     (Some r, s') \<Rightarrow> (Json (PDict (to_dict (heap s' ! r))) 200, s')
                   | (None, s') \<Rightarrow> (Internal AttributeError, s')))))"

section \<open>Properties of the validators\<close>

lemmas strptime_defs = validate_date_def strptime_def date_regex_def rx_Y_def rx_m_def rx_day_def
  rx_d_def rx_seq_def rx_alt_def rx_lit_def rx_in_def is_digit_def py_int_def digit_val_def
  check_date_fields_def days_in_month_def is_leap_def

lemma validate_date_examples:
  "validate_date (PStr ''2026-12-31'') = Inr (True, None)"
  "validate_date (PStr ''31-12-2026'') = Inr (False, Some ''Invalid date format. Use YYYY-MM-DD'')"
  "validate_date (PStr ''2026-13-01'') = Inr (False, Some ''Invalid date format. Use YYYY-MM-DD'')"
  "validate_date (PStr ''2026-12-32'') = Inr (False, Some ''Invalid date format. Use YYYY-MM-DD'')"
  by (simp_all add: strptime_defs)

lemma validate_date_string_cases:
  "validate_date (PStr s) = Inr (True, None) \<or>
   validate_date (PStr s) = Inr (False, Some ''Invalid date format. Use YYYY-MM-DD'')"
  by (auto simp: validate_date_def strptime_def split: sum.splits exn.splits list.splits prod.splits if_splits)

subsection \<open>Dates of the exact form are accepted\<close>

lemma is_digit_cases:
  "is_digit c \<longleftrightarrow> c = CHR ''0'' \<or> c = CHR ''1'' \<or> c = CHR ''2'' \<or> c = CHR ''3'' \<or> c = CHR ''4'' \<or>
     c = CHR ''5'' \<or> c = CHR ''6'' \<or> c = CHR ''7'' \<or> c = CHR ''8'' \<or> c = CHR ''9''"
  by (auto simp: is_digit_def)

lemma digit_val_range: "is_digit c \<Longrightarrow> 0 \<le> digit_val c \<and> digit_val c \<le> 9"
  by (auto simp: is_digit_cases digit_val_def)

lemma digit_classes:
  assumes "is_digit c"
  shows "c = CHR ''0'' \<longleftrightarrow> digit_val c = 0"
    and "c = CHR ''1'' \<longleftrightarrow> digit_val c = 1"
    and "c = CHR ''3'' \<longleftrightarrow> digit_val c = 3"
    and "c \<in> set ''123456789'' \<longleftrightarrow> 1 \<le> digit_val c"
    and "c \<in> set ''012'' \<longleftrightarrow> digit_val c \<le> 2"
    and "c \<in> set ''01'' \<longleftrightarrow> digit_val c \<le> 1"
    and "c \<in> set ''12'' \<longleftrightarrow> 1 \<le> digit_val c \<and> digit_val c \<le> 2"
    and "c \<noteq> CHR '' ''"
  using assms by (auto simp: is_digit_cases digit_val_def)

lemma py_int_two: "is_digit a \<Longrightarrow> py_int [a, b] = 10 * digit_val a + digit_val b"
  by (simp add: py_int_def digit_classes(8))

lemma rx_lit_hit: "rx_lit c (c # rest) = [([c], rest)]"
  by (simp add: rx_lit_def)

lemma rx_lit_miss: "x \<noteq> c \<Longrightarrow> rx_lit c (x # rest) = []"
  by (simp add: rx_lit_def)

lemma rx_in_hit: "c \<in> set cs \<Longrightarrow> rx_in cs (c # rest) = [([c], rest)]"
  by (simp add: rx_in_def)

lemma rx_in_miss: "c \<notin> set cs \<Longrightarrow> rx_in cs (c # rest) = []"
  by (simp add: rx_in_def)

lemma rx_d_hit: "is_digit c \<Longrightarrow> rx_d (c # rest) = [([c], rest)]"
  by (simp add: rx_d_def)

lemma rx_seq_nil: "p s = [] \<Longrightarrow> rx_seq p q s = []"
  by (simp add: rx_seq_def)

lemma rx_seq_first:
  "p s = (a, r) # xs \<Longrightarrow> q r = (b, r') # ys \<Longrightarrow> \<exists>zs. rx_seq p q s = (a @ b, r') # zs"
  by (simp add: rx_seq_def)

lemma rx_alt_first: "\<exists>xs. p s = x # xs \<Longrightarrow> \<exists>ys. rx_alt p q s = x # ys"
  by (auto simp: rx_alt_def)

lemma rx_alt_skip: "p s = [] \<Longrightarrow> rx_alt p q s = q s"
  by (simp add: rx_alt_def)

lemma rx_Y_digits:
  "is_digit a \<Longrightarrow> is_digit b \<Longrightarrow> is_digit c \<Longrightarrow> is_digit d \<Longrightarrow>
   rx_Y (a # b # c # d # rest) = [([a, b, c, d], rest)]"
  by (simp add: rx_Y_def rx_d_def rx_seq_def)

lemma rx_m_two:
  assumes "is_digit a" "is_digit b" "1 \<le> py_int [a, b]" "py_int [a, b] \<le> 12"
  shows "\<exists>xs. rx_m (a # b # rest) = ([a, b], rest) # xs"
proof -
  have v: "1 \<le> 10 * digit_val a + digit_val b" "10 * digit_val a + digit_val b \<le> 12"
    using assms by (simp_all add: py_int_two)
  have ra: "0 \<le> digit_val a" "digit_val a \<le> 9" and rb: "0 \<le> digit_val b" "digit_val b \<le> 9"
    using assms digit_val_range by blast+
  from v ra rb consider "digit_val a = 0" "1 \<le> digit_val b" | "digit_val a = 1" "digit_val b \<le> 2"
    by fastforce
  then show ?thesis
  proof cases
    case 1
    then have a: "a = CHR ''0''" and b: "b \<in> set ''123456789''"
      using assms digit_classes by blast+
    have "rx_seq (rx_lit CHR ''1'') (rx_in ''012'') (a # b # rest) = []"
      by (rule rx_seq_nil) (simp add: a rx_lit_miss)
    moreover have "\<exists>zs. rx_seq (rx_lit CHR ''0'') (rx_in ''123456789'') (a # b # rest) =
                     ([a] @ [b], rest) # zs"
      unfolding a by (rule rx_seq_first, rule rx_lit_hit, rule rx_in_hit, rule b)
    ultimately show ?thesis
      unfolding rx_m_def by (simp add: rx_alt_skip rx_alt_first)
  next
    case 2
    then have a: "a = CHR ''1''" and b: "b \<in> set ''012''"
      using assms digit_classes by blast+
    have "\<exists>zs. rx_seq (rx_lit CHR ''1'') (rx_in ''012'') (a # b # rest) = ([a] @ [b], rest) # zs"
      unfolding a by (rule rx_seq_first, rule rx_lit_hit, rule rx_in_hit, rule b)
    then show ?thesis
      unfolding rx_m_def by (simp add: rx_alt_first)
  qed
qed

lemma rx_day_two:
  assumes "is_digit a" "is_digit b" "1 \<le> py_int [a, b]" "py_int [a, b] \<le> 31"
  shows "\<exists>xs. rx_day [a, b] = ([a, b], []) # xs"
proof -
  have v: "1 \<le> 10 * digit_val a + digit_val b" "10 * digit_val a + digit_val b \<le> 31"
    using assms by (simp_all add: py_int_two)
  have ra: "0 \<le> digit_val a" "digit_val a \<le> 9" and rb: "0 \<le> digit_val b" "digit_val b \<le> 9"
    using assms digit_val_range by blast+
  from v ra rb consider "digit_val a = 3" "digit_val b \<le> 1"
    | "1 \<le> digit_val a" "digit_val a \<le> 2"
    | "digit_val a = 0" "1 \<le> digit_val b"
    by fastforce
  then show ?thesis
  proof cases
    case 1
    then have a: "a = CHR ''3''" and b: "b \<in> set ''01''"
      using assms digit_classes by blast+
    have "\<exists>zs. rx_seq (rx_lit CHR ''3'') (rx_in ''01'') [a, b] = ([a] @ [b], []) # zs"
      unfolding a by (rule rx_seq_first, rule rx_lit_hit, rule rx_in_hit, rule b)
    then show ?thesis
      unfolding rx_day_def by (simp add: rx_alt_first)
  next
    case 2
    then have a: "a \<in> set ''12''" and n3: "a \<noteq> CHR ''3''"
      using assms digit_classes by fastforce+
    have "rx_seq (rx_lit CHR ''3'') (rx_in ''01'') [a, b] = []"
      by (rule rx_seq_nil) (simp add: n3 rx_lit_miss)
    moreover have "\<exists>zs. rx_seq (rx_in ''12'') rx_d [a, b] = ([a] @ [b], []) # zs"
      by (rule rx_seq_first, rule rx_in_hit, rule a, rule rx_d_hit, rule assms(2))
    ultimately show ?thesis
      unfolding rx_day_def by (simp add: rx_alt_skip rx_alt_first)
  next
    case 3
    then have a: "a = CHR ''0''" and b: "b \<in> set ''123456789''"
      using assms digit_classes by blast+
    have "rx_seq (rx_lit CHR ''3'') (rx_in ''01'') [a, b] = []"
      by (rule rx_seq_nil) (simp add: a rx_lit_miss)
    moreover have "rx_seq (rx_in ''12'') rx_d [a, b] = []"
      by (rule rx_seq_nil) (simp add: a rx_in_miss)
    moreover have "\<exists>zs. rx_seq (rx_lit CHR ''0'') (rx_in ''123456789'') [a, b] = ([a] @ [b], []) # zs"
      unfolding a by (rule rx_seq_first, rule rx_lit_hit, rule rx_in_hit, rule b)
    ultimately show ?thesis
      unfolding rx_day_def by (simp add: rx_alt_skip rx_alt_first)
  qed
qed

lemma days_in_month_le: "days_in_month y m \<le> 31"
  by (simp add: days_in_month_def)

text \<open>
  Every string of the exact form \<open>YYYY-MM-DD\<close> (four, two and two decimal digits) that
  names a date of the calendar is accepted: the validator errs only by accepting more.
\<close>

lemma validate_date_accepts_iso:
  assumes dig: "is_digit y1" "is_digit y2" "is_digit y3" "is_digit y4"
      "is_digit m1" "is_digit m2" "is_digit d1" "is_digit d2"
    and real: "check_date_fields (py_int [y1, y2, y3, y4]) (py_int [m1, m2]) (py_int [d1, d2])"
  shows "validate_date (PStr [y1, y2, y3, y4, CHR ''-'', m1, m2, CHR ''-'', d1, d2]) = Inr (True, None)"
proof -
  from real have m: "1 \<le> py_int [m1, m2]" "py_int [m1, m2] \<le> 12"
    and d: "1 \<le> py_int [d1, d2]" "py_int [d1, d2] \<le> 31"
    using days_in_month_le [of "py_int [y1, y2, y3, y4]" "py_int [m1, m2]"]
    by (auto simp: check_date_fields_def)
  obtain ms where ms: "rx_m (m1 # m2 # [CHR ''-'', d1, d2]) = ([m1, m2], [CHR ''-'', d1, d2]) # ms"
    using rx_m_two [OF dig(5,6) m] by blast
  obtain ds where ds: "rx_day [d1, d2] = ([d1, d2], []) # ds"
    using rx_day_two [OF dig(7,8) d] by blast
  have "\<exists>rs. date_regex [y1, y2, y3, y4, CHR ''-'', m1, m2, CHR ''-'', d1, d2] =
          (([y1, y2, y3, y4], [m1, m2], [d1, d2]), []) # rs"
    by (simp add: date_regex_def rx_Y_digits dig ms ds rx_lit_def)
  then show ?thesis
    using real by (auto simp: validate_date_def strptime_def)
qed

lemma length_ten:
  assumes "length s = 10"
  obtains a b c d e f g h i j where "s = [a, b, c, d, e, f, g, h, i, j]"
proof -
  from assms have "length s = Suc (Suc (Suc (Suc (Suc (Suc (Suc (Suc (Suc (Suc 0)))))))))"
    by simp
  then show ?thesis
    using that by (auto simp: length_Suc_conv)
qed

lemma validate_date_accepts_spec_format:
  assumes "spec_date_format s"
  shows "validate_date (PStr s) = Inr (True, None)"
proof -
  from assms have "length s = 10" by (simp add: spec_date_format_def)
  then obtain a b c d e f g h i j where s: "s = [a, b, c, d, e, f, g, h, i, j]"
    by (rule length_ten)
  from assms show ?thesis
    unfolding s spec_date_format_def
    by (simp add: validate_date_accepts_iso)
qed

lemma spec_format_examples:
  "spec_date_format ''2026-12-31''" "\<not> spec_date_format ''31-12-2026''" "\<not> spec_date_format ''2026-13-01''"
  by (simp_all add: spec_date_format_def strptime_defs)

subsection \<open>The validators of single values and of requests\<close>

text \<open>
  Claim C3 says that \<open>validate_date\<close> succeeds only on a four digit year, a two digit
  month and a two digit day. The expression that \<open>strptime\<close> matches also takes a month
  and a day of one digit: \<open>2026-1-5\<close> is not of the form \<open>YYYY-MM-DD\<close>, and
  \<open>validate_date\<close> succeeds on it.
\<close>

theorem validate_date_accepts_short_fields:
  "\<not> spec_date_format ''2026-1-5'' \<and> validate_date (PStr ''2026-1-5'') = Inr (True, None)"
  by (simp add: spec_date_format_def strptime_defs)

lemma validate_status_cases:
  "validate_status v = (True, None) \<or>
   validate_status v = (False, Some ''Invalid status. Must be one of: Pending, In Progress, Completed'')"
  by (simp add: validate_status_def valid_statuses_def)

lemma validate_date_cases:
  "validate_date v = Inr (True, None) \<or>
   validate_date v = Inr (False, Some ''Invalid date format. Use YYYY-MM-DD'') \<or>
   validate_date v = Inl TypeError"
  by (auto simp: validate_date_def strptime_def split: sum.splits exn.splits pyval.splits list.splits prod.splits if_splits)

text \<open>
  Claim C8. On a string, \<open>validate_status\<close> succeeds exactly for the three strings
  \<open>Pending\<close>, \<open>In Progress\<close> and \<open>Completed\<close>, compared as they are, and every
  failure carries the message that lists the three.
\<close>

theorem validate_status_iff:
  "(validate_status (PStr s) = (True, None) \<longleftrightarrow>
      s = ''Pending'' \<or> s = ''In Progress'' \<or> s = ''Completed'') \<and>
   (validate_status (PStr s) \<noteq> (True, None) \<longrightarrow>
      validate_status (PStr s) =
        (False, Some ''Invalid status. Must be one of: Pending, In Progress, Completed''))"
  by (auto simp: validate_status_def valid_statuses_def)

theorem validate_status_iff_witness:
  "validate_status (PStr ''Completed'') = (True, None) \<and>
   validate_status (PStr ''Done'') \<noteq> (True, None) \<and>
   validate_status (PStr ''Done'') =
     (False, Some ''Invalid status. Must be one of: Pending, In Progress, Completed'') \<and>
   validate_status (PStr ''pending'') \<noteq> (True, None)"
proof -
  have 1: "validate_status (PStr ''Completed'') = (True, None)"
    using validate_status_iff [of "''Completed''"] by simp
  have 2: "validate_status (PStr ''Done'') \<noteq> (True, None)"
    using validate_status_iff [of "''Done''"] by simp
  have 3: "validate_status (PStr ''Done'') =
     (False, Some ''Invalid status. Must be one of: Pending, In Progress, Completed'')"
    using 2 validate_status_iff [of "''Done''"] by blast
  have 4: "validate_status (PStr ''pending'') \<noteq> (True, None)"
    using validate_status_iff [of "''pending''"] by simp
  show ?thesis
    by (intro conjI; fact)
qed

lemma status_step:
  "(case validate_status st of (False, error) \<Rightarrow> Inr (False, error) | (True, _) \<Rightarrow> Inr (True, None))
     = (Inr (validate_status st) :: exn + verdict)"
  using validate_status_cases [of st] by auto

lemma validate_task_data_missing:
  "filter (\<lambda>f. \<not> contains_key data f) req \<noteq> [] \<Longrightarrow>
   validate_task_data data req =
     (False, Some (''Missing required fields: '' @
        join '', '' (filter (\<lambda>f. \<not> contains_key data f) req)))"
  by (simp add: validate_task_data_def Let_def)

lemma validate_create_task_missing:
  assumes "filter (\<lambda>f. \<not> contains_key data f) [''title'', ''description'', ''due_date''] \<noteq> []"
  shows "validate_create_task data =
        Inr (False, Some (''Missing required fields: '' @
          join '', '' (filter (\<lambda>f. \<not> contains_key data f) [''title'', ''description'', ''due_date''])))"
  unfolding validate_create_task_def validate_task_data_missing [OF assms]
  by (simp only: prod.case bool.case)

lemma validate_create_task_present:
  assumes "contains_key data ''title''" "contains_key data ''description''"
    "map_of data ''due_date'' = Some dd"
  shows "validate_create_task data =
     (if validate_date dd \<noteq> Inr (True, None) then validate_date dd
      else case map_of data ''status'' of
             None \<Rightarrow> Inr (True, None)
           | Some st \<Rightarrow> Inr (validate_status st))"
proof -
  have req: "validate_task_data data [''title'', ''description'', ''due_date''] = (True, None)"
    using assms by (simp add: validate_task_data_def contains_key_def)
  have dd: "dict_get data ''due_date'' PNone = dd"
    using assms(3) by (simp add: dict_get_def)
  have st: "\<And>st. map_of data ''status'' = Some st \<Longrightarrow> dict_get data ''status'' PNone = st"
    by (simp add: dict_get_def)
  show ?thesis
    using validate_date_cases [of dd]
    by (auto simp: validate_create_task_def req dd st status_step contains_key_def
             split: option.splits)
qed

text \<open>
  The order of the checks of \<open>validate_create_task\<close>. It checks the presence of
  \<open>title\<close>, \<open>description\<close> and \<open>due_date\<close> first: when one is missing the result
  is the message with the missing names, joined by a comma in that order, whatever the
  other values are. With the three present the outcome is that of \<open>validate_date\<close> on
  \<open>due_date\<close> unless that succeeds; then it is success when there is no \<open>status\<close>
  key, and the result of \<open>validate_status\<close> on the status otherwise.
\<close>

lemma validate_create_task_order:
  "(filter (\<lambda>f. \<not> contains_key data f) [''title'', ''description'', ''due_date''] \<noteq> [] \<longrightarrow>
      validate_create_task data =
        Inr (False, Some (''Missing required fields: '' @
          join '', '' (filter (\<lambda>f. \<not> contains_key data f) [''title'', ''description'', ''due_date''])))) \<and>
   (contains_key data ''title'' \<and> contains_key data ''description'' \<and>
    map_of data ''due_date'' = Some dd \<longrightarrow>
      (validate_date dd \<noteq> Inr (True, None) \<longrightarrow> validate_create_task data = validate_date dd) \<and>
      (validate_date dd = Inr (True, None) \<longrightarrow>
         (\<not> contains_key data ''status'' \<longrightarrow> validate_create_task data = Inr (True, None)) \<and>
         (\<forall>st. map_of data ''status'' = Some st \<longrightarrow>
            validate_create_task data = Inr (validate_status st))))"
proof (intro conjI impI allI)
  assume "filter (\<lambda>f. \<not> contains_key data f) [''title'', ''description'', ''due_date''] \<noteq> []"
  then show "validate_create_task data =
        Inr (False, Some (''Missing required fields: '' @
          join '', '' (filter (\<lambda>f. \<not> contains_key data f) [''title'', ''description'', ''due_date''])))"
    by (rule validate_create_task_missing)
next
  assume p: "contains_key data ''title'' \<and> contains_key data ''description'' \<and>
    map_of data ''due_date'' = Some dd" and "validate_date dd \<noteq> Inr (True, None)"
  then show "validate_create_task data = validate_date dd"
    by (simp add: validate_create_task_present [of data dd])
next
  assume p: "contains_key data ''title'' \<and> contains_key data ''description'' \<and>
    map_of data ''due_date'' = Some dd" and "validate_date dd = Inr (True, None)"
    and "\<not> contains_key data ''status''"
  then show "validate_create_task data = Inr (True, None)"
    by (simp add: validate_create_task_present [of data dd] contains_key_def)
next
  fix st
  assume p: "contains_key data ''title'' \<and> contains_key data ''description'' \<and>
    map_of data ''due_date'' = Some dd" and "validate_date dd = Inr (True, None)"
    and "map_of data ''status'' = Some st"
  then show "validate_create_task data = Inr (validate_status st)"
    by (simp add: validate_create_task_present [of data dd])
qed

lemma validate_create_task_order_examples:
  "validate_create_task [(''description'', PStr ''d''), (''status'', PStr ''Done'')] =
     Inr (False, Some ''Missing required fields: title, due_date'') \<and>
   validate_create_task [(''title'', PStr ''t''), (''description'', PStr ''d''),
       (''due_date'', PStr ''31-12-2026''), (''status'', PStr ''Done'')] =
     Inr (False, Some ''Invalid date format. Use YYYY-MM-DD'') \<and>
   validate_create_task [(''title'', PStr ''t''), (''description'', PStr ''d''),
       (''due_date'', PStr ''2026-12-31'')] = Inr (True, None) \<and>
   validate_create_task [(''title'', PStr ''t''), (''description'', PStr ''d''),
       (''due_date'', PStr ''2026-12-31''), (''status'', PStr ''Done'')] =
     Inr (False, Some ''Invalid status. Must be one of: Pending, In Progress, Completed'')"
  using
    validate_create_task_order [of "[(''description'', PStr ''d''), (''status'', PStr ''Done'')]" PNone]
    validate_create_task_order [of "[(''title'', PStr ''t''), (''description'', PStr ''d''),
       (''due_date'', PStr ''31-12-2026''), (''status'', PStr ''Done'')]" "PStr ''31-12-2026''"]
    validate_create_task_order [of "[(''title'', PStr ''t''), (''description'', PStr ''d''),
       (''due_date'', PStr ''2026-12-31'')]" "PStr ''2026-12-31''"]
    validate_create_task_order [of "[(''title'', PStr ''t''), (''description'', PStr ''d''),
       (''due_date'', PStr ''2026-12-31''), (''status'', PStr ''Done'')]" "PStr ''2026-12-31''"]
  by (simp add: contains_key_def validate_date_examples validate_status_def valid_statuses_def)

lemma validate_update_task_nonempty:
  assumes "data \<noteq> []"
  shows "validate_update_task data =
     (case map_of data ''due_date'' of
        Some dd \<Rightarrow> 
          if validate_date dd \<noteq> Inr (True, None) then validate_date dd
          else (case map_of data ''status'' of
                  None \<Rightarrow> Inr (True, None)
                | Some st \<Rightarrow> Inr (validate_status st))
      | None \<Rightarrow> (case map_of data ''status'' of
                  None \<Rightarrow> Inr (True, None)
                | Some st \<Rightarrow> Inr (validate_status st)))"
proof (cases "map_of data ''due_date''")
  case None
  then show ?thesis using assms
    by (auto simp: validate_update_task_def status_step contains_key_def dict_get_def
             split: option.splits)
next
  case (Some dd)
  have dd: "dict_get data ''due_date'' PNone = dd"
    using Some by (simp add: dict_get_def)
  have st: "\<And>st. map_of data ''status'' = Some st \<Longrightarrow> dict_get data ''status'' PNone = st"
    by (simp add: dict_get_def)
  show ?thesis using Some assms validate_date_cases [of dd]
    by (auto simp: validate_update_task_def status_step contains_key_def dd st
             split: option.splits)
qed

lemma status_part_not_empty_update:
  "(case map_of data ''status'' of None \<Rightarrow> Inr (True, None) | Some st \<Rightarrow> Inr (validate_status st))
     \<noteq> (Inr (False, Some ''No fields provided for update'') :: exn + verdict)"
proof (cases "map_of data ''status''")
  case None
  then show ?thesis by simp
next
  case (Some st)
  then show ?thesis using validate_status_cases [of st] by auto
qed

lemma validate_date_not_empty_update:
  "validate_date dd \<noteq> Inr (False, Some ''No fields provided for update'')"
  using validate_date_cases [of dd] by auto

text \<open>
  The order of the checks of \<open>validate_update_task\<close>. It returns the message
  "No fields provided for update" exactly on the empty mapping. On a mapping that is not
  empty, a \<open>due_date\<close> that does not validate decides the outcome; otherwise (no
  \<open>due_date\<close> key, or a valid one) the result is success when there is no \<open>status\<close>
  key and the result of \<open>validate_status\<close> on the status when there is one. No key is
  required.
\<close>

lemma validate_update_task_order:
  "(validate_update_task data = Inr (False, Some ''No fields provided for update'') \<longleftrightarrow> data = []) \<and>
   (data \<noteq> [] \<longrightarrow>
      (\<forall>dd. map_of data ''due_date'' = Some dd \<and> validate_date dd \<noteq> Inr (True, None) \<longrightarrow>
          validate_update_task data = validate_date dd) \<and>
      (\<not> contains_key data ''due_date'' \<or>
       (\<exists>dd. map_of data ''due_date'' = Some dd \<and> validate_date dd = Inr (True, None)) \<longrightarrow>
         (\<not> contains_key data ''status'' \<longrightarrow> validate_update_task data = Inr (True, None)) \<and>
         (\<forall>st. map_of data ''status'' = Some st \<longrightarrow>
            validate_update_task data = Inr (validate_status st))))"
proof (intro conjI impI allI iffI)
  assume "data = []" then show "validate_update_task data = Inr (False, Some ''No fields provided for update'')"
    by (simp add: validate_update_task_def)
next
  assume r: "validate_update_task data = Inr (False, Some ''No fields provided for update'')"
  show "data = []"
  proof (rule ccontr)
    assume ne: "data \<noteq> []"
    have "validate_update_task data \<noteq> Inr (False, Some ''No fields provided for update'')"
      unfolding validate_update_task_nonempty [OF ne]
      using status_part_not_empty_update [of data] validate_date_not_empty_update
      by (simp split: option.splits)
    with r show False by simp
  qed
next
  fix dd assume "data \<noteq> []" "map_of data ''due_date'' = Some dd \<and> validate_date dd \<noteq> Inr (True, None)"
  then show "validate_update_task data = validate_date dd"
    by (simp add: validate_update_task_nonempty)
next
  assume "data \<noteq> []" "\<not> contains_key data ''due_date'' \<or>
       (\<exists>dd. map_of data ''due_date'' = Some dd \<and> validate_date dd = Inr (True, None))"
     "\<not> contains_key data ''status''"
  then show "validate_update_task data = Inr (True, None)"
    by (auto simp add: validate_update_task_nonempty contains_key_def)
next
  fix st
  assume "data \<noteq> []" "\<not> contains_key data ''due_date'' \<or>
       (\<exists>dd. map_of data ''due_date'' = Some dd \<and> validate_date dd = Inr (True, None))"
     "map_of data ''status'' = Some st"
  then show "validate_update_task data = Inr (validate_status st)"
    by (auto simp add: validate_update_task_nonempty contains_key_def)
qed

lemma validate_update_task_order_examples:
  "validate_update_task [] = Inr (False, Some ''No fields provided for update'') \<and>
   validate_update_task [(''title'', PStr ''t'')] = Inr (True, None) \<and>
   validate_update_task [(''due_date'', PStr ''31-12-2026''), (''status'', PStr ''Done'')] =
     Inr (False, Some ''Invalid date format. Use YYYY-MM-DD'') \<and>
   validate_update_task [(''due_date'', PStr ''2026-12-31''), (''status'', PStr ''Done'')] =
     Inr (False, Some ''Invalid status. Must be one of: Pending, In Progress, Completed'') \<and>
   validate_update_task [(''status'', PStr ''Completed'')] = Inr (True, None)"
  using
    validate_update_task_order [of "[]"]
    validate_update_task_order [of "[(''title'', PStr ''t'')]"]
    validate_update_task_order [of "[(''due_date'', PStr ''31-12-2026''), (''status'', PStr ''Done'')]"]
    validate_update_task_order [of "[(''due_date'', PStr ''2026-12-31''), (''status'', PStr ''Done'')]"]
    validate_update_task_order [of "[(''status'', PStr ''Completed'')]"]
  by (simp add: contains_key_def validate_date_examples validate_status_def valid_statuses_def)

subsection \<open>When a validator raises\<close>

text \<open>
  \<open>validate_date\<close> raises exactly on a value that is not a string, and the two request
  validators raise exactly when they reach \<open>validate_date\<close> with such a value; on every
  other mapping they return a verdict.
\<close>

lemma validate_date_raises_iff:
  "(\<exists>e. validate_date v = Inl e) \<longleftrightarrow> (\<forall>s. v \<noteq> PStr s)"
proof (cases v)
  case (PStr s)
  then show ?thesis using validate_date_string_cases [of s] by auto
qed (simp_all add: validate_date_def strptime_def)

lemma validate_create_task_raises_iff:
  "(\<exists>e. validate_create_task data = Inl e) \<longleftrightarrow>
     contains_key data ''title'' \<and> contains_key data ''description'' \<and>
     (\<exists>dd. map_of data ''due_date'' = Some dd \<and> (\<forall>s. dd \<noteq> PStr s))"
proof (cases "filter (\<lambda>f. \<not> contains_key data f) [''title'', ''description'', ''due_date''] = []")
  case False
  then have "validate_create_task data =
        Inr (False, Some (''Missing required fields: '' @
          join '', '' (filter (\<lambda>f. \<not> contains_key data f) [''title'', ''description'', ''due_date''])))"
    by (rule validate_create_task_missing)
  moreover from False have "\<not> (contains_key data ''title'' \<and> contains_key data ''description'' \<and>
     (\<exists>dd. map_of data ''due_date'' = Some dd))"
    by (auto simp: contains_key_def split: if_splits)
  ultimately show ?thesis by auto
next
  case True
  then have t: "contains_key data ''title''" and d: "contains_key data ''description''"
    and "contains_key data ''due_date''"
    by (auto split: if_splits)
  then obtain dd where dd: "map_of data ''due_date'' = Some dd"
    by (auto simp: contains_key_def)
  show ?thesis
    using validate_date_raises_iff [of dd] validate_date_cases [of dd]
    by (auto simp: validate_create_task_present [OF t d dd] t d dd split: option.splits)
qed

lemma validate_update_task_raises_iff:
  "(\<exists>e. validate_update_task data = Inl e) \<longleftrightarrow>
     (\<exists>dd. map_of data ''due_date'' = Some dd \<and> (\<forall>s. dd \<noteq> PStr s))"
proof (cases "data = []")
  case True
  then show ?thesis by (simp add: validate_update_task_def)
next
  case False
  show ?thesis
  proof (cases "map_of data ''due_date''")
    case None
    then show ?thesis
      by (auto simp: validate_update_task_nonempty [OF False] split: option.splits)
  next
    case (Some dd)
    then show ?thesis
      using validate_date_raises_iff [of dd] validate_date_cases [of dd]
      by (auto simp: validate_update_task_nonempty [OF False] split: option.splits)
  qed
qed

text \<open>
  Claim C5 says that \<open>validate_create_task\<close> returns the first failure, or success, for
  every field mapping. On the mapping with a title, a description and the due date null
  the presence check passes and \<open>validate_date\<close> raises \<open>TypeError\<close>, which neither
  validator catches: no verdict is returned, and the route answers 500 instead of 400.
\<close>

theorem validate_create_task_null_due_date:
  "validate_create_task
     [(''title'', PStr ''t''), (''description'', PStr ''d''), (''due_date'', PNone)] =
     Inl TypeError \<and>
   route_create_task TaskStorage_init
     [(''title'', PStr ''t''), (''description'', PStr ''d''), (''due_date'', PNone)] =
     (Internal TypeError, TaskStorage_init)"
  by (simp add: route_create_task_def validate_create_task_def validate_task_data_def
        contains_key_def dict_get_def validate_date_def strptime_def)

text \<open>
  Claim C6 says that \<open>validate_update_task\<close> validates a present \<open>due_date\<close> and
  returns the first failure for every field mapping that is not empty. On the mapping
  with the due date null \<open>validate_date\<close> raises \<open>TypeError\<close>, which neither validator
  catches: no verdict is returned, and the route answers 500 for a stored task.
\<close>

theorem validate_update_task_null_due_date:
  "validate_update_task [(''due_date'', PNone)] = Inl TypeError \<and>
   route_update_task
     \<lparr>heap = [\<lparr>id' = 1, title = PStr ''a'', description = PStr ''b'',
                due_date = PStr ''2026-12-31'', status = PStr ''Pending''\<rparr>],
       tasks = [(1, 0)], next_id = 2\<rparr> 1 [(''due_date'', PNone)] =
     (Internal TypeError,
      \<lparr>heap = [\<lparr>id' = 1, title = PStr ''a'', description = PStr ''b'',
                due_date = PStr ''2026-12-31'', status = PStr ''Pending''\<rparr>],
       tasks = [(1, 0)], next_id = 2\<rparr>)"
  by (simp add: route_update_task_def validate_update_task_def get_task_def
        contains_key_def dict_get_def validate_date_def strptime_def)

section \<open>Properties of the storage\<close>

lemma Task_update_id [simp]: "id' (Task_update self t d dd st) = id' self"
  by (simp add: Task_update_def Let_def)

lemma Task_update_fields:
  "title (Task_update self t d dd st) = (if t \<noteq> PNone then t else title self)"
  "description (Task_update self t d dd st) = (if d \<noteq> PNone then d else description self)"
  "due_date (Task_update self t d dd st) = (if dd \<noteq> PNone then dd else due_date self)"
  "status (Task_update self t d dd st) = (if st \<noteq> PNone then st else status self)"
  by (simp_all add: Task_update_def Let_def)

lemma Task_update_none [simp]: "Task_update self PNone PNone PNone PNone = self"
  by (simp add: Task_update_def)

lemma map_id_list_update:
  "map id' (xs[r := Task_update (xs ! r) t d dd st]) = map id' xs"
  by (induction xs arbitrary: r) (auto split: nat.splits)

lemma set_alist_update: "set (AList.update k v al) \<subseteq> insert (k, v) (set al)"
  by (induction al) auto

lemma set_alist_delete: "set (AList.delete k al) \<subseteq> set al"
  by (auto simp: AList.delete_eq)

lemma inv_init: "storage_inv TaskStorage_init"
  by (simp add: storage_inv_def heap_ids_def TaskStorage_init_def)

lemma inv_create: 
  assumes "storage_inv s" shows "storage_inv (snd (create_task s t d dd st))"
proof -
  let ?s' = "snd (create_task s t d dd st)"
  have h: "heap ?s' = heap s @ [Task_init (next_id s) t d dd (Some (case st of None \<Rightarrow> PStr ''Pending'' | Some v \<Rightarrow> v))]"
    and n: "next_id ?s' = next_id s + 1"
    and ts: "tasks ?s' = AList.update (next_id s) (length (heap s)) (tasks s)"
    by (simp_all add: create_task_def Let_def)
  have i: "heap_ids ?s' = heap_ids s @ [next_id s]"
    by (simp add: heap_ids_def h Task_init_def)
  have 1: "\<forall>i \<in> set (heap_ids ?s'). i < next_id ?s'"
    using assms by (auto simp: i n storage_inv_def)
  have 2: "distinct (heap_ids ?s')"
    using assms by (auto simp: i storage_inv_def)
  have 3: "\<forall>(k, r) \<in> set (tasks ?s'). r < length (heap ?s') \<and> id' (heap ?s' ! r) = k"
  proof (clarify)
    fix k r assume "(k, r) \<in> set (tasks ?s')"
    then have "(k, r) = (next_id s, length (heap s)) \<or> (k, r) \<in> set (tasks s)"
      using set_alist_update [of "next_id s" "length (heap s)" "tasks s"] by (auto simp: ts)
    then show "r < length (heap ?s') \<and> id' (heap ?s' ! r) = k"
    proof
      assume "(k, r) = (next_id s, length (heap s))"
      then show ?thesis by (simp add: h Task_init_def)
    next
      assume "(k, r) \<in> set (tasks s)"
      with assms have "r < length (heap s) \<and> id' (heap s ! r) = k"
        by (auto simp: storage_inv_def)
      then show ?thesis by (simp add: h nth_append)
    qed
  qed
  have 4: "distinct (map fst (tasks ?s'))"
    using assms by (simp add: ts storage_inv_def distinct_update)
  show ?thesis unfolding storage_inv_def using 1 2 3 4 by blast
qed

lemma inv_update:
  assumes "storage_inv s" shows "storage_inv (snd (update_task s k t d dd st))"
proof (cases "get_task s k")
  case None
  then show ?thesis using assms by (simp add: update_task_def)
next
  case (Some r)
  let ?s' = "snd (update_task s k t d dd st)"
  have h: "heap ?s' = (heap s)[r := Task_update (heap s ! r) t d dd st]"
    and n: "next_id ?s' = next_id s" and ts: "tasks ?s' = tasks s"
    using Some by (simp_all add: update_task_def)
  have i: "heap_ids ?s' = heap_ids s" by (simp add: heap_ids_def h map_id_list_update)
  have nth: "id' (heap ?s' ! j) = id' (heap s ! j)" if "j < length (heap s)" for j
    using that by (cases "j = r") (simp_all add: h)
  have len: "length (heap ?s') = length (heap s)" by (simp add: h)
  show ?thesis using assms unfolding storage_inv_def i n ts len
    by (auto simp: nth)
qed

lemma inv_delete:
  assumes "storage_inv s" shows "storage_inv (snd (delete_task s k))"
  using assms set_alist_delete [of k "tasks s"]
  by (auto simp: storage_inv_def delete_task_def heap_ids_def distinct_delete)

lemma inv_exec: "storage_inv s \<Longrightarrow> storage_inv (snd (exec s x))"
  by (cases x) (simp_all add: split_beta inv_create inv_update inv_delete)

lemma inv_run: "storage_inv s \<Longrightarrow> storage_inv (run s xs)"
  by (induction xs arbitrary: s) (simp_all add: inv_exec)

lemma next_id_exec: "next_id s \<le> next_id (snd (exec s x))"
  by (cases x) (simp_all add: split_beta create_task_def update_task_def delete_task_def Let_def
                  split: option.splits)

lemma created_ids_lower: "i \<in> set (created_ids s xs) \<Longrightarrow> next_id s \<le> i"
proof (induction xs arbitrary: s)
  case Nil
  then show ?case by simp
next
  case (Cons x xs)
  show ?case
  proof (cases x)
    case (Create t d dd st)
    let ?s' = "snd (create_task s t d dd st)"
    from Cons.prems Create have "i = next_id s \<or> i \<in> set (created_ids ?s' xs)"
      by (auto simp: create_task_def Let_def Task_init_def)
    moreover have "next_id s \<le> next_id ?s'" by (simp add: create_task_def Let_def)
    ultimately show ?thesis using Cons.IH [of ?s'] by auto
  next
    case (Get k)
    with Cons show ?thesis by simp
  next
    case ListAll
    with Cons show ?thesis by simp
  next
    case (Update k t d dd st)
    with Cons.prems have "i \<in> set (created_ids (snd (exec s x)) xs)"
      by (simp add: split_beta)
    from Cons.IH [OF this] next_id_exec [of s x] show ?thesis by simp
  next
    case (Delete k)
    with Cons.prems have "i \<in> set (created_ids (snd (exec s x)) xs)"
      by (simp add: split_beta)
    from Cons.IH [OF this] next_id_exec [of s x] show ?thesis by simp
  qed
qed

lemma created_ids_sorted: "sorted_wrt (<) (created_ids s xs)"
proof (induction xs arbitrary: s)
  case Nil
  then show ?case by simp
next
  case (Cons x xs)
  show ?case
  proof (cases x)
    case (Create t d dd st)
    let ?s' = "snd (create_task s t d dd st)"
    have eq: "created_ids s (x # xs) = next_id s # created_ids ?s' xs"
      using Create by (simp add: create_task_def Let_def Task_init_def)
    have "next_id ?s' = next_id s + 1" by (simp add: create_task_def Let_def)
    then have "\<forall>i \<in> set (created_ids ?s' xs). next_id s < i"
      using created_ids_lower [of _ ?s' xs] by fastforce
    then show ?thesis using Cons.IH [of ?s'] unfolding eq by simp
  qed (simp_all add: Cons.IH split_beta)
qed

lemma created_ids_append:
  "created_ids s (xs @ ys) = created_ids s xs @ created_ids (run s xs) ys"
  by (induction xs arbitrary: s) (auto split: prod.splits result.splits)

lemma deleted_key_below_next_id:
  assumes "storage_inv s" "fst (delete_task s k)"
  shows "k < next_id (snd (delete_task s k))"
proof -
  from assms(2) obtain r where "(k, r) \<in> set (tasks s)"
    by (auto simp: delete_task_def contains_key_def split: if_splits dest: map_of_SomeD)
  with assms(1) have "r < length (heap s)" "id' (heap s ! r) = k"
    by (auto simp: storage_inv_def)
  then have "k \<in> set (heap_ids s)" by (auto simp: heap_ids_def)
  with assms(1) have "k < next_id s" by (simp add: storage_inv_def)
  then show ?thesis by (simp add: delete_task_def)
qed

text \<open>
  Claim C4. \<open>create_task\<close> has no failing branch. The task it returns is a new object
  with the id \<open>next_id\<close> of the storage before the call and the given title,
  description and due date, with the status \<open>Pending\<close> when none is passed; afterwards
  \<open>next_id\<close> is one more, the task is stored under its id, and the other entries and
  objects are as before. The route passes \<open>data.get("status", "Pending")\<close>: a request
  that validates and has no \<open>status\<close> key creates a task with status \<open>Pending\<close> and
  answers 201 with it.
\<close>

theorem create_task_spec:
  "(case create_task s t d dd st of
      (r, s') \<Rightarrow>
        heap s' ! r = \<lparr>id' = next_id s, title = t, description = d, due_date = dd,
                       status = (case st of None \<Rightarrow> PStr ''Pending'' | Some v \<Rightarrow> v)\<rparr> \<and>
        next_id s' = next_id s + 1 \<and>
        get_task s' (next_id s) = Some r \<and>
        (\<forall>j. j \<noteq> next_id s \<longrightarrow> get_task s' j = get_task s j) \<and>
        r = length (heap s) \<and>
        heap s' = heap s @ [heap s' ! r]) \<and>
   (\<forall>e. validate_create_task data = Inr (True, e) \<longrightarrow>
      (case create_task s (dict_get data ''title'' PNone) (dict_get data ''description'' PNone)
              (dict_get data ''due_date'' PNone) (Some (dict_get data ''status'' (PStr ''Pending''))) of
         (r, s') \<Rightarrow>
           route_create_task s data = (Json (PDict (to_dict (heap s' ! r))) 201, s') \<and>
           (\<not> contains_key data ''status'' \<longrightarrow> status (heap s' ! r) = PStr ''Pending'')))"
proof (intro conjI allI impI)
  show "case create_task s t d dd st of
      (r, s') \<Rightarrow>
        heap s' ! r = \<lparr>id' = next_id s, title = t, description = d, due_date = dd,
                       status = (case st of None \<Rightarrow> PStr ''Pending'' | Some v \<Rightarrow> v)\<rparr> \<and>
        next_id s' = next_id s + 1 \<and>
        get_task s' (next_id s) = Some r \<and>
        (\<forall>j. j \<noteq> next_id s \<longrightarrow> get_task s' j = get_task s j) \<and>
        r = length (heap s) \<and>
        heap s' = heap s @ [heap s' ! r]"
    by (simp add: create_task_def Let_def Task_init_def get_task_def update_conv')
next
  fix e assume ok: "validate_create_task data = Inr (True, e)"
  have ne: "data \<noteq> []"
  proof
    assume "data = []"
    then have "validate_create_task data \<noteq> Inr (True, e)"
      by (simp add: validate_create_task_def validate_task_data_def contains_key_def)
    with ok show False by simp
  qed
  show "case create_task s (dict_get data ''title'' PNone) (dict_get data ''description'' PNone)
              (dict_get data ''due_date'' PNone) (Some (dict_get data ''status'' (PStr ''Pending''))) of
         (r, s') \<Rightarrow>
           route_create_task s data = (Json (PDict (to_dict (heap s' ! r))) 201, s') \<and>
           (\<not> contains_key data ''status'' \<longrightarrow> status (heap s' ! r) = PStr ''Pending'')"
    using ne ok
    by (simp add: route_create_task_def split_beta create_task_def Let_def Task_init_def
          contains_key_def dict_get_def)
qed

theorem create_task_spec_witness:
  "validate_create_task [(''title'', PStr ''Test Task''), (''description'', PStr ''This is a test task''),
       (''due_date'', PStr ''2026-12-31'')] = Inr (True, None) \<and>
   \<not> contains_key [(''title'', PStr ''Test Task''), (''description'', PStr ''This is a test task''),
       (''due_date'', PStr ''2026-12-31'')] ''status'' \<and>
   route_create_task TaskStorage_init [(''title'', PStr ''Test Task''),
       (''description'', PStr ''This is a test task''), (''due_date'', PStr ''2026-12-31'')] =
     (Json (PDict [(''id'', PInt 1), (''title'', PStr ''Test Task''),
        (''description'', PStr ''This is a test task''), (''due_date'', PStr ''2026-12-31''),
        (''status'', PStr ''Pending'')]) 201,
      \<lparr>heap = [\<lparr>id' = 1, title = PStr ''Test Task'', description = PStr ''This is a test task'',
                due_date = PStr ''2026-12-31'', status = PStr ''Pending''\<rparr>],
       tasks = [(1, 0)], next_id = 2\<rparr>)"
proof -
  let ?data = "[(''title'', PStr ''Test Task''), (''description'', PStr ''This is a test task''),
       (''due_date'', PStr ''2026-12-31'')]"
  have v: "validate_create_task ?data = Inr (True, None)"
    by (simp add: validate_create_task_def validate_task_data_def contains_key_def dict_get_def
          validate_date_examples)
  have c: "\<not> contains_key ?data ''status''"
    by (simp add: contains_key_def)
  have e: "create_task TaskStorage_init (dict_get ?data ''title'' PNone)
             (dict_get ?data ''description'' PNone) (dict_get ?data ''due_date'' PNone)
             (Some (dict_get ?data ''status'' (PStr ''Pending''))) =
           (0, \<lparr>heap = [\<lparr>id' = 1, title = PStr ''Test Task'', description = PStr ''This is a test task'',
                due_date = PStr ''2026-12-31'', status = PStr ''Pending''\<rparr>],
       tasks = [(1, 0)], next_id = 2\<rparr>)"
    by (simp add: create_task_def TaskStorage_init_def Task_init_def dict_get_def Let_def)
  show ?thesis
    using v c create_task_spec [of TaskStorage_init PNone PNone PNone None ?data]
    by (simp add: e to_dict_def)
qed

text \<open>
  Claim C7. \<open>delete_task\<close> returns \<open>True\<close> exactly when a task was stored under the id;
  afterwards \<open>get_task\<close> on that id returns \<open>None\<close>, every other id is looked up as
  before, and the heap and \<open>next_id\<close> are untouched; on an unknown id the storage is
  unchanged.
\<close>

theorem delete_task_spec:
  "fst (delete_task s k) = (get_task s k \<noteq> None) \<and>
   get_task (snd (delete_task s k)) k = None \<and>
   (\<forall>j. j \<noteq> k \<longrightarrow> get_task (snd (delete_task s k)) j = get_task s j) \<and>
   (get_task s k = None \<longrightarrow> snd (delete_task s k) = s) \<and>
   heap (snd (delete_task s k)) = heap s \<and>
   next_id (snd (delete_task s k)) = next_id s"
  by (simp add: delete_task_def get_task_def contains_key_def delete_conv')

theorem delete_task_spec_witness:
  "get_task
    \<lparr>heap = [\<lparr>id' = 1, title = PStr ''a'', description = PStr ''b'',
              due_date = PStr ''2026-12-31'', status = PStr ''Pending''\<rparr>,
            \<lparr>id' = 2, title = PStr ''c'', description = PStr ''d'',
              due_date = PStr ''2027-01-01'', status = PStr ''Completed''\<rparr>],
     tasks = [(1, 0), (2, 1)], next_id = 3\<rparr> 1 \<noteq> None \<and>
   fst (delete_task
    \<lparr>heap = [\<lparr>id' = 1, title = PStr ''a'', description = PStr ''b'',
              due_date = PStr ''2026-12-31'', status = PStr ''Pending''\<rparr>,
            \<lparr>id' = 2, title = PStr ''c'', description = PStr ''d'',
              due_date = PStr ''2027-01-01'', status = PStr ''Completed''\<rparr>],
     tasks = [(1, 0), (2, 1)], next_id = 3\<rparr> 1) \<and>
   get_task (snd (delete_task
    \<lparr>heap = [\<lparr>id' = 1, title = PStr ''a'', description = PStr ''b'',
              due_date = PStr ''2026-12-31'', status = PStr ''Pending''\<rparr>,
            \<lparr>id' = 2, title = PStr ''c'', description = PStr ''d'',
              due_date = PStr ''2027-01-01'', status = PStr ''Completed''\<rparr>],
     tasks = [(1, 0), (2, 1)], next_id = 3\<rparr> 1)) 1 = None \<and>
   get_task (snd (delete_task
    \<lparr>heap = [\<lparr>id' = 1, title = PStr ''a'', description = PStr ''b'',
              due_date = PStr ''2026-12-31'', status = PStr ''Pending''\<rparr>,
            \<lparr>id' = 2, title = PStr ''c'', description = PStr ''d'',
              due_date = PStr ''2027-01-01'', status = PStr ''Completed''\<rparr>],
     tasks = [(1, 0), (2, 1)], next_id = 3\<rparr> 1)) 2 = Some 1 \<and>
   get_task
    \<lparr>heap = [\<lparr>id' = 1, title = PStr ''a'', description = PStr ''b'',
              due_date = PStr ''2026-12-31'', status = PStr ''Pending''\<rparr>,
            \<lparr>id' = 2, title = PStr ''c'', description = PStr ''d'',
              due_date = PStr ''2027-01-01'', status = PStr ''Completed''\<rparr>],
     tasks = [(1, 0), (2, 1)], next_id = 3\<rparr> 7 = None \<and>
   delete_task
    \<lparr>heap = [\<lparr>id' = 1, title = PStr ''a'', description = PStr ''b'',
              due_date = PStr ''2026-12-31'', status = PStr ''Pending''\<rparr>,
            \<lparr>id' = 2, title = PStr ''c'', description = PStr ''d'',
              due_date = PStr ''2027-01-01'', status = PStr ''Completed''\<rparr>],
     tasks = [(1, 0), (2, 1)], next_id = 3\<rparr> 7 =
   (False,
    \<lparr>heap = [\<lparr>id' = 1, title = PStr ''a'', description = PStr ''b'',
              due_date = PStr ''2026-12-31'', status = PStr ''Pending''\<rparr>,
            \<lparr>id' = 2, title = PStr ''c'', description = PStr ''d'',
              due_date = PStr ''2027-01-01'', status = PStr ''Completed''\<rparr>],
     tasks = [(1, 0), (2, 1)], next_id = 3\<rparr>)"
proof -
  let ?s = "\<lparr>heap = [\<lparr>id' = 1, title = PStr ''a'', description = PStr ''b'',
              due_date = PStr ''2026-12-31'', status = PStr ''Pending''\<rparr>,
            \<lparr>id' = 2, title = PStr ''c'', description = PStr ''d'',
              due_date = PStr ''2027-01-01'', status = PStr ''Completed''\<rparr>],
     tasks = [(1, 0), (2, 1)], next_id = 3\<rparr>"
  have a: "get_task ?s 1 \<noteq> None" and b: "get_task ?s 7 = None" and c: "get_task ?s 2 = Some 1"
    by (simp_all add: get_task_def)
  note t1 = delete_task_spec [of ?s 1] and t7 = delete_task_spec [of ?s 7]
  have 1: "fst (delete_task ?s 1)"
    using t1 a by blast
  have 2: "get_task (snd (delete_task ?s 1)) 1 = None"
    using t1 by blast
  have "\<forall>j. j \<noteq> 1 \<longrightarrow> get_task (snd (delete_task ?s 1)) j = get_task ?s j"
    using t1 by blast
  then have "get_task (snd (delete_task ?s 1)) 2 = get_task ?s 2"
    by simp
  with c have 3: "get_task (snd (delete_task ?s 1)) 2 = Some 1"
    by simp
  have "fst (delete_task ?s 7) = False" and "snd (delete_task ?s 7) = ?s"
    using t7 b by blast+
  then have 4: "delete_task ?s 7 = (False, ?s)"
    by (simp add: prod_eq_iff)
  show ?thesis
    by (intro conjI; fact)
qed

text \<open>
  Claim C2. \<open>update_task\<close> on an id with no task returns \<open>None\<close> and leaves the storage
  as it is, whatever the other arguments are. On a stored task it returns the reference
  that is stored under the id, before and after the call (the same object, mutated in
  place): each field whose argument is not \<open>None\<close> takes the argument, each field whose
  argument is left at \<open>None\<close> keeps its value, the id keeps its value, and the dict, the
  counter and all other objects are unchanged. With only a status passed, only the status
  changes.
\<close>

theorem update_task_spec:
  "(get_task s k = None \<longrightarrow> update_task s k t d dd st = (None, s)) \<and>
   (\<forall>r. get_task s k = Some r \<and> r < length (heap s) \<longrightarrow>
      (case update_task s k t d dd st of
         (res, s') \<Rightarrow>
           res = Some r \<and> get_task s' k = Some r \<and>
           tasks s' = tasks s \<and> next_id s' = next_id s \<and>
           length (heap s') = length (heap s) \<and>
           (\<forall>r'. r' \<noteq> r \<longrightarrow> heap s' ! r' = heap s ! r') \<and>
           id' (heap s' ! r) = id' (heap s ! r) \<and>
           title (heap s' ! r) = (if t \<noteq> PNone then t else title (heap s ! r)) \<and>
           description (heap s' ! r) = (if d \<noteq> PNone then d else description (heap s ! r)) \<and>
           due_date (heap s' ! r) = (if dd \<noteq> PNone then dd else due_date (heap s ! r)) \<and>
           status (heap s' ! r) = (if st \<noteq> PNone then st else status (heap s ! r)))) \<and>
   (\<forall>r. get_task s k = Some r \<and> r < length (heap s) \<and> st \<noteq> PNone \<longrightarrow>
      update_task s k PNone PNone PNone st =
        (Some r, s\<lparr>heap := (heap s)[r := (heap s ! r)\<lparr>status := st\<rparr>]\<rparr>))"
  by (auto simp: update_task_def get_task_def Task_update_fields Task_update_def)

theorem update_task_spec_witness:
  "get_task \<lparr>heap = [\<lparr>id' = 1, title = PStr ''a'', description = PStr ''b'',
                due_date = PStr ''2026-12-31'', status = PStr ''Pending''\<rparr>],
       tasks = [(1, 0)], next_id = 2\<rparr> 1 = Some 0 \<and>
   get_task \<lparr>heap = [\<lparr>id' = 1, title = PStr ''a'', description = PStr ''b'',
                due_date = PStr ''2026-12-31'', status = PStr ''Pending''\<rparr>],
       tasks = [(1, 0)], next_id = 2\<rparr> 999 = None \<and>
   update_task \<lparr>heap = [\<lparr>id' = 1, title = PStr ''a'', description = PStr ''b'',
                due_date = PStr ''2026-12-31'', status = PStr ''Pending''\<rparr>],
       tasks = [(1, 0)], next_id = 2\<rparr> 999 (PStr ''x'') PNone PNone PNone =
     (None, \<lparr>heap = [\<lparr>id' = 1, title = PStr ''a'', description = PStr ''b'',
                due_date = PStr ''2026-12-31'', status = PStr ''Pending''\<rparr>],
       tasks = [(1, 0)], next_id = 2\<rparr>) \<and>
   update_task \<lparr>heap = [\<lparr>id' = 1, title = PStr ''a'', description = PStr ''b'',
                due_date = PStr ''2026-12-31'', status = PStr ''Pending''\<rparr>],
       tasks = [(1, 0)], next_id = 2\<rparr> 1 PNone PNone PNone (PStr ''Completed'') =
     (Some 0, \<lparr>heap = [\<lparr>id' = 1, title = PStr ''a'', description = PStr ''b'',
                due_date = PStr ''2026-12-31'', status = PStr ''Completed''\<rparr>],
       tasks = [(1, 0)], next_id = 2\<rparr>)"
proof -
  let ?s = "\<lparr>heap = [\<lparr>id' = 1, title = PStr ''a'', description = PStr ''b'',
                due_date = PStr ''2026-12-31'', status = PStr ''Pending''\<rparr>],
       tasks = [(1, 0)], next_id = 2\<rparr>"
  have a: "get_task ?s 1 = Some 0" and b: "get_task ?s 999 = None"
    by (simp_all add: get_task_def)
  show ?thesis
    using a b update_task_spec [of ?s 999 "PStr ''x''" PNone PNone PNone]
      update_task_spec [of ?s 1 PNone PNone PNone "PStr ''Completed''"]
    by simp
qed

text \<open>
  Claim C10. With no field argument, \<open>update_task\<close> on a stored task returns the task and
  leaves the storage, and so every field of the task, unchanged: the storage does not
  treat an update without fields as an error. The rejection happens before the storage
  is reached: \<open>validate_update_task\<close> rejects the empty mapping, and the route answers
  400 to an empty body.
\<close>

theorem update_task_no_fields:
  "(\<forall>r. get_task s k = Some r \<longrightarrow> update_task s k PNone PNone PNone PNone = (Some r, s)) \<and>
   validate_update_task [] = Inr (False, Some ''No fields provided for update'') \<and>
   route_update_task s k [] = (Json (error_body (Some ''No data provided'')) 400, s)"
  by (simp add: update_task_def validate_update_task_def route_update_task_def)

theorem update_task_no_fields_witness:
  "get_task \<lparr>heap = [\<lparr>id' = 1, title = PStr ''a'', description = PStr ''b'',
                due_date = PStr ''2026-12-31'', status = PStr ''Pending''\<rparr>],
       tasks = [(1, 0)], next_id = 2\<rparr> 1 = Some 0 \<and>
   update_task \<lparr>heap = [\<lparr>id' = 1, title = PStr ''a'', description = PStr ''b'',
                due_date = PStr ''2026-12-31'', status = PStr ''Pending''\<rparr>],
       tasks = [(1, 0)], next_id = 2\<rparr> 1 PNone PNone PNone PNone =
     (Some 0, \<lparr>heap = [\<lparr>id' = 1, title = PStr ''a'', description = PStr ''b'',
                due_date = PStr ''2026-12-31'', status = PStr ''Pending''\<rparr>],
       tasks = [(1, 0)], next_id = 2\<rparr>)"
proof -
  let ?s = "\<lparr>heap = [\<lparr>id' = 1, title = PStr ''a'', description = PStr ''b'',
                due_date = PStr ''2026-12-31'', status = PStr ''Pending''\<rparr>],
       tasks = [(1, 0)], next_id = 2\<rparr>"
  have a: "get_task ?s 1 = Some 0"
    by (simp add: get_task_def)
  show ?thesis
    using a update_task_no_fields [of ?s 1] by simp
qed

text \<open>
  Claim C1. For every sequence of operations run on a fresh storage: the ids returned by
  its creates are strictly increasing, so each is greater than every id assigned before;
  the Task objects constructed so far, deleted ones included, have pairwise different
  ids; the keys of the stored tasks are pairwise different and each stored task carries
  its key as id; and an id that a delete has just removed is not assigned by any create
  of any later sequence of operations.
\<close>

theorem ids_never_reused:
  "sorted_wrt (<) (created_ids TaskStorage_init ops) \<and>
   distinct (map id' (heap (run TaskStorage_init ops))) \<and>
   distinct (map fst (tasks (run TaskStorage_init ops))) \<and>
   (\<forall>(k, r) \<in> set (tasks (run TaskStorage_init ops)).
      r < length (heap (run TaskStorage_init ops)) \<and>
      id' (heap (run TaskStorage_init ops) ! r) = k) \<and>
   (fst (delete_task (run TaskStorage_init ops) k) \<longrightarrow>
      k \<notin> set (created_ids (snd (delete_task (run TaskStorage_init ops) k)) later))"
proof -
  let ?s = "run TaskStorage_init ops"
  have i: "storage_inv ?s" by (rule inv_run [OF inv_init])
  have "k \<notin> set (created_ids (snd (delete_task ?s k)) later)" if "fst (delete_task ?s k)"
    using deleted_key_below_next_id [OF i that]
      created_ids_lower [of k "snd (delete_task ?s k)" later] by auto
  with i created_ids_sorted [of TaskStorage_init ops] show ?thesis
    unfolding storage_inv_def heap_ids_def by blast
qed

theorem ids_never_reused_witness:
  "fst (delete_task (run TaskStorage_init [Create PNone PNone PNone None, Create PNone PNone PNone None]) 1) \<and>
   1 \<notin> set (created_ids (snd (delete_task (run TaskStorage_init
           [Create PNone PNone PNone None, Create PNone PNone PNone None]) 1))
        [Create PNone PNone PNone None])"
proof -
  have h: "fst (delete_task (run TaskStorage_init [Create PNone PNone PNone None, Create PNone PNone PNone None]) 1)"
    by (simp add: TaskStorage_init_def create_task_def delete_task_def contains_key_def Let_def)
  with ids_never_reused [of "[Create PNone PNone PNone None, Create PNone PNone PNone None]" 1
      "[Create PNone PNone PNone None]"]
  show ?thesis by blast
qed

section \<open>Null and empty values in an update\<close>

lemma validate_update_task_ok_nonempty:
  "validate_update_task data = Inr (True, e) \<Longrightarrow> data \<noteq> []"
  by (auto simp: validate_update_task_def)

text \<open>
  Claim C9 says that a field supplied as null in an update is treated as provided and
  applied. The route reads each field with \<open>data.get\<close>, which gives \<open>None\<close> for an
  absent key and for a key with the value null alike, and \<open>Task.update\<close> skips
  \<open>None\<close>: the request \<open>{"title": null}\<close> on a task with the title \<open>a\<close> answers 200
  and the title is still \<open>a\<close>, not null.
\<close>

theorem null_title_counterexample:
  "route_update_task
     \<lparr>heap = [\<lparr>id' = 1, title = PStr ''a'', description = PStr ''b'',
                due_date = PStr ''2026-12-31'', status = PStr ''Pending''\<rparr>],
       tasks = [(1, 0)], next_id = 2\<rparr> 1 [(''title'', PNone)] =
   (Json (PDict [(''id'', PInt 1), (''title'', PStr ''a''), (''description'', PStr ''b''),
        (''due_date'', PStr ''2026-12-31''), (''status'', PStr ''Pending'')]) 200,
    \<lparr>heap = [\<lparr>id' = 1, title = PStr ''a'', description = PStr ''b'',
                due_date = PStr ''2026-12-31'', status = PStr ''Pending''\<rparr>],
       tasks = [(1, 0)], next_id = 2\<rparr>) \<and>
   title (heap (snd (route_update_task
     \<lparr>heap = [\<lparr>id' = 1, title = PStr ''a'', description = PStr ''b'',
                due_date = PStr ''2026-12-31'', status = PStr ''Pending''\<rparr>],
       tasks = [(1, 0)], next_id = 2\<rparr> 1 [(''title'', PNone)])) ! 0) \<noteq> PNone"
  by (simp add: route_update_task_def get_task_def validate_update_task_def contains_key_def
        dict_get_def update_task_def to_dict_def)

text \<open>
  Claim C9, amended. A field supplied as an empty string is treated as provided and is
  applied, like every value other than \<open>None\<close>; a field supplied as null is treated
  exactly like an absent field and keeps its value. This holds for the four fields in
  \<open>Task.update\<close>, and for \<open>title\<close> and \<open>description\<close> through the route on every
  request that validates (a null \<open>due_date\<close> or \<open>status\<close> does not validate).
\<close>

theorem update_null_like_absent:
  "(t \<noteq> PNone \<longrightarrow> title (Task_update self t d dd st) = t) \<and>
   (d \<noteq> PNone \<longrightarrow> description (Task_update self t d dd st) = d) \<and>
   (dd \<noteq> PNone \<longrightarrow> due_date (Task_update self t d dd st) = dd) \<and>
   (st \<noteq> PNone \<longrightarrow> status (Task_update self t d dd st) = st) \<and>
   title (Task_update self PNone d dd st) = title self \<and>
   description (Task_update self t PNone dd st) = description self \<and>
   due_date (Task_update self t d PNone st) = due_date self \<and>
   status (Task_update self t d dd PNone) = status self \<and>
   Task_update self (PStr []) PNone PNone PNone = self\<lparr>title := PStr []\<rparr> \<and>
   (\<forall>r e. get_task s k = Some r \<and> r < length (heap s) \<and>
          validate_update_task data = Inr (True, e) \<longrightarrow>
      (case route_update_task s k data of
         (resp, s') \<Rightarrow>
           resp = Json (PDict (to_dict (heap s' ! r))) 200 \<and>
           (map_of data ''title'' = None \<or> map_of data ''title'' = Some PNone \<longrightarrow>
              title (heap s' ! r) = title (heap s ! r)) \<and>
           (\<forall>v. map_of data ''title'' = Some v \<and> v \<noteq> PNone \<longrightarrow> title (heap s' ! r) = v) \<and>
           (map_of data ''description'' = None \<or> map_of data ''description'' = Some PNone \<longrightarrow>
              description (heap s' ! r) = description (heap s ! r)) \<and>
           (\<forall>v. map_of data ''description'' = Some v \<and> v \<noteq> PNone \<longrightarrow>
              description (heap s' ! r) = v)))"
proof (intro conjI allI impI)
  fix r e
  assume a: "get_task s k = Some r \<and> r < length (heap s) \<and>
          validate_update_task data = Inr (True, e)"
  then have ne: "data \<noteq> []" by (auto dest: validate_update_task_ok_nonempty)
  show "case route_update_task s k data of
         (resp, s') \<Rightarrow>
           resp = Json (PDict (to_dict (heap s' ! r))) 200 \<and>
           (map_of data ''title'' = None \<or> map_of data ''title'' = Some PNone \<longrightarrow>
              title (heap s' ! r) = title (heap s ! r)) \<and>
           (\<forall>v. map_of data ''title'' = Some v \<and> v \<noteq> PNone \<longrightarrow> title (heap s' ! r) = v) \<and>
           (map_of data ''description'' = None \<or> map_of data ''description'' = Some PNone \<longrightarrow>
              description (heap s' ! r) = description (heap s ! r)) \<and>
           (\<forall>v. map_of data ''description'' = Some v \<and> v \<noteq> PNone \<longrightarrow>
              description (heap s' ! r) = v)"
    using a ne
    by (auto simp: route_update_task_def update_task_def Task_update_fields dict_get_def)
qed (simp_all add: Task_update_def Let_def)

theorem update_null_like_absent_witness:
  "PStr ''x'' \<noteq> PNone \<and>
   title (Task_update (heap \<lparr>heap = [\<lparr>id' = 1, title = PStr ''a'', description = PStr ''b'',
                due_date = PStr ''2026-12-31'', status = PStr ''Pending''\<rparr>],
       tasks = [(1, 0)], next_id = 2\<rparr> ! 0)
            (PStr ''x'') (PStr ''y'') (PStr ''2027-01-01'') (PStr ''Completed'')) = PStr ''x'' \<and>
   status (Task_update (heap \<lparr>heap = [\<lparr>id' = 1, title = PStr ''a'', description = PStr ''b'',
                due_date = PStr ''2026-12-31'', status = PStr ''Pending''\<rparr>],
       tasks = [(1, 0)], next_id = 2\<rparr> ! 0)
            (PStr ''x'') (PStr ''y'') (PStr ''2027-01-01'') (PStr ''Completed'')) = PStr ''Completed'' \<and>
   get_task \<lparr>heap = [\<lparr>id' = 1, title = PStr ''a'', description = PStr ''b'',
                due_date = PStr ''2026-12-31'', status = PStr ''Pending''\<rparr>],
       tasks = [(1, 0)], next_id = 2\<rparr> 1 = Some 0 \<and>
   validate_update_task [(''title'', PStr []), (''description'', PNone)] = Inr (True, None) \<and>
   map_of [(''title'', PStr []), (''description'', PNone)] ''title'' = Some (PStr []) \<and>
   map_of [(''title'', PStr []), (''description'', PNone)] ''description'' = Some PNone \<and>
   title (heap (snd (route_update_task \<lparr>heap = [\<lparr>id' = 1, title = PStr ''a'', description = PStr ''b'',
                due_date = PStr ''2026-12-31'', status = PStr ''Pending''\<rparr>],
       tasks = [(1, 0)], next_id = 2\<rparr> 1
       [(''title'', PStr []), (''description'', PNone)])) ! 0) = PStr [] \<and>
   description (heap (snd (route_update_task \<lparr>heap = [\<lparr>id' = 1, title = PStr ''a'', description = PStr ''b'',
                due_date = PStr ''2026-12-31'', status = PStr ''Pending''\<rparr>],
       tasks = [(1, 0)], next_id = 2\<rparr> 1
       [(''title'', PStr []), (''description'', PNone)])) ! 0) = PStr ''b''"
proof -
  let ?s = "\<lparr>heap = [\<lparr>id' = 1, title = PStr ''a'', description = PStr ''b'',
                due_date = PStr ''2026-12-31'', status = PStr ''Pending''\<rparr>],
       tasks = [(1, 0)], next_id = 2\<rparr>"
  let ?data = "[(''title'', PStr []), (''description'', PNone)]"
  have a: "get_task ?s 1 = Some 0" by (simp add: get_task_def)
  have v: "validate_update_task ?data = Inr (True, None)"
    by (simp add: validate_update_task_def contains_key_def)
  show ?thesis
    using a v
      update_null_like_absent [where t = "PStr ''x''" and d = "PStr ''y''"
        and dd = "PStr ''2027-01-01''" and st = "PStr ''Completed''"
        and self = "heap ?s ! 0" and s = ?s and k = 1 and data = ?data]
    by (auto simp: split_beta)
qed

end
